theory Spec2Isabelle
  imports Complex_Main
begin

section \<open>Data model\<close>

text \<open>
  The dashboards (\<^verbatim>\<open>app.py\<close>, \<^verbatim>\<open>app1.1.py\<close>, \<^verbatim>\<open>app_1.2.py\<close>) and the Flask service
  (\<^verbatim>\<open>main.py\<close>) read a JSON array of objects into a pandas DataFrame. A key of a JSON
  object is absent, null, or carries a value.
\<close>

datatype 'a json_field = Absent | Null | Val 'a

datatype raw_value = RNum real | RStr string

record raw_record =
  raw_reported_date :: "string json_field"
  raw_state :: "string json_field"
  raw_gender :: "string json_field"
  raw_age :: "raw_value json_field"
  raw_verified :: "bool json_field"

text \<open>
  A row of the DataFrame. A cell is \<open>None\<close> where pandas holds NaN / NaT / None.
  \<open>reported_date\<close> is a day number (the code compares \<^verbatim>\<open>.dt.date\<close> only). The free-text
  columns the modelled operations never read (case id, district, cause, sources) are left out.
  Float arithmetic is modelled by exact real arithmetic.
\<close>

record row =
  reported_date :: "int option"
  state :: "string option"
  gender :: "string option"
  age :: "real option"
  verified :: "bool option"

record dataframe =
  columns :: "string list"
  rows :: "row list"

datatype error = KeyError string

text \<open>Comparisons with a missing value are False; \<^verbatim>\<open>isin\<close> of a missing value is False.\<close>

definition ge_na :: "'a::ord option \<Rightarrow> 'a \<Rightarrow> bool" where
  "ge_na c x = (case c of None \<Rightarrow> False | Some v \<Rightarrow> x \<le> v)"

definition le_na :: "'a::ord option \<Rightarrow> 'a \<Rightarrow> bool" where
  "le_na c x = (case c of None \<Rightarrow> False | Some v \<Rightarrow> v \<le> x)"

definition isin :: "'a option \<Rightarrow> 'a list \<Rightarrow> bool" where
  "isin c xs = (case c of None \<Rightarrow> False | Some v \<Rightarrow> v \<in> set xs)"

section \<open>Filter engine\<close>

text \<open>The sidebar selection of the dashboards.\<close>

record filter_spec =
  start :: int
  end_dt :: int
  selected_states :: "string list"
  verified_only :: bool
  age_range :: "int \<times> int"
  selected_genders :: "string list"

text \<open>
  \<^verbatim>\<open>app.py\<close> lines 40-48 and \<^verbatim>\<open>app1.1.py\<close> lines 61-69: the mask starts all True and
  each guarded statement conjoins one predicate.
\<close>

definition row_mask :: "dataframe \<Rightarrow> filter_spec \<Rightarrow> row \<Rightarrow> bool" where
  "row_mask df s r =
    (let m = True;
         m = (if ''reported_date'' \<in> set (columns df)
              then m \<and> (ge_na (reported_date r) (start s) \<and> le_na (reported_date r) (end_dt s))
              else m);
         m = (if selected_states s \<noteq> [] then m \<and> isin (state r) (selected_states s) else m);
         m = (if verified_only s then m \<and> verified r = Some True else m);
         m = (if ''age'' \<in> set (columns df)
              then m \<and> (ge_na (age r) (real_of_int (fst (age_range s))) \<and>
                        le_na (age r) (real_of_int (snd (age_range s))))
              else m)
     in m)"

text \<open>
  \<^verbatim>\<open>fdf = df[mask].copy()\<close>. Reading \<^verbatim>\<open>df["state"]\<close> or \<^verbatim>\<open>df["verified"]\<close> of a frame
  without that column raises KeyError; \<open>fdf_raises\<close> is the first such read, in the
  order of the statements.
\<close>

definition fdf_raises :: "dataframe \<Rightarrow> filter_spec \<Rightarrow> error option" where
  "fdf_raises df s =
    (if selected_states s \<noteq> [] \<and> ''state'' \<notin> set (columns df) then Some (KeyError ''state'')
     else if verified_only s \<and> ''verified'' \<notin> set (columns df) then Some (KeyError ''verified'')
     else None)"

definition fdf :: "dataframe \<Rightarrow> filter_spec \<Rightarrow> error + dataframe" where
  "fdf df s =
    (case fdf_raises df s of
       Some e \<Rightarrow> Inl e
     | None \<Rightarrow> Inr (df\<lparr>rows := filter (row_mask df s) (rows df)\<rparr>))"

text \<open>\<^verbatim>\<open>app_1.2.py\<close> lines 112-124: the same mask, then the gender predicate.\<close>

definition mask_v12 :: "dataframe \<Rightarrow> filter_spec \<Rightarrow> row \<Rightarrow> bool" where
  "mask_v12 df s r =
    (let m = row_mask df s r;
         m = (if selected_genders s \<noteq> [] \<and> ''gender'' \<in> set (columns df)
              then m \<and> isin (gender r) (selected_genders s) else m)
     in m)"

definition fdf_v12 :: "dataframe \<Rightarrow> filter_spec \<Rightarrow> error + dataframe" where
  "fdf_v12 df s =
    (case fdf_raises df s of
       Some e \<Rightarrow> Inl e
     | None \<Rightarrow> Inr (df\<lparr>rows := filter (mask_v12 df s) (rows df)\<rparr>))"

text \<open>
  The query of \<^verbatim>\<open>/api/data\<close> in \<^verbatim>\<open>main.py\<close>, after parsing: a parameter that is absent
  or the empty string is \<open>None\<close> (it is falsy in the guards of lines 68-82).
\<close>

record query =
  start_date :: "int option"
  end_date :: "int option"
  states :: "string list"
  verified_only_arg :: bool
  min_age :: "real option"
  max_age :: "real option"

definition get_data_mask :: "query \<Rightarrow> row \<Rightarrow> bool" where
  "get_data_mask q r =
    (let m = True;
         m = (if start_date q \<noteq> None \<and> end_date q \<noteq> None
              then m \<and> (ge_na (reported_date r) (the (start_date q)) \<and>
                        le_na (reported_date r) (the (end_date q)))
              else m);
         m = (if states q \<noteq> [] then m \<and> isin (state r) (states q) else m);
         m = (if verified_only_arg q then m \<and> verified r = Some True else m);
         m = (if min_age q \<noteq> None then m \<and> ge_na (age r) (the (min_age q)) else m);
         m = (if max_age q \<noteq> None then m \<and> le_na (age r) (the (max_age q)) else m)
     in m)"

text \<open>
  \<^verbatim>\<open>main.py\<close> lines 66-84; here every column is read without a guard. (The route answers
  "No data available" before this block when the loaded store is empty.)
\<close>

definition get_data_raises :: "dataframe \<Rightarrow> query \<Rightarrow> error option" where
  "get_data_raises df q =
    (if start_date q \<noteq> None \<and> end_date q \<noteq> None \<and> ''reported_date'' \<notin> set (columns df)
       then Some (KeyError ''reported_date'')
     else if states q \<noteq> [] \<and> ''state'' \<notin> set (columns df) then Some (KeyError ''state'')
     else if verified_only_arg q \<and> ''verified'' \<notin> set (columns df)
       then Some (KeyError ''verified'')
     else if (min_age q \<noteq> None \<or> max_age q \<noteq> None) \<and> ''age'' \<notin> set (columns df)
       then Some (KeyError ''age'')
     else None)"

definition filtered_df :: "dataframe \<Rightarrow> query \<Rightarrow> error + dataframe" where
  "filtered_df df q =
    (case get_data_raises df q of
       Some e \<Rightarrow> Inl e
     | None \<Rightarrow> Inr (df\<lparr>rows := filter (get_data_mask q) (rows df)\<rparr>))"

section \<open>Loading\<close>

text \<open>
  \<^verbatim>\<open>pd.DataFrame(arr)\<close>: a column exists when some object of the array has the key; the
  cell of an object without the key (or with null) is missing. Only membership in the
  column list is ever tested, so its order is not modelled.
\<close>

definition cell :: "'a json_field \<Rightarrow> 'a option" where
  "cell f = (case f of Val x \<Rightarrow> Some x | Null \<Rightarrow> None | Absent \<Rightarrow> None)"

definition has_key :: "(raw_record \<Rightarrow> 'a json_field) \<Rightarrow> raw_record list \<Rightarrow> bool" where
  "has_key fld arr = list_ex (\<lambda>x. fld x \<noteq> Absent) arr"

definition frame_columns :: "raw_record list \<Rightarrow> string list" where
  "frame_columns arr =
     (if has_key raw_reported_date arr then [''reported_date''] else []) @
     (if has_key raw_state arr then [''state''] else []) @
     (if has_key raw_gender arr then [''gender''] else []) @
     (if has_key raw_age arr then [''age''] else []) @
     (if has_key raw_verified arr then [''verified''] else [])"

text \<open>
  \<^verbatim>\<open>pd.to_numeric(errors="coerce")\<close>: a number stays, a string goes through the parser
  of pandas, which is a parameter here, as is the date parser of \<^verbatim>\<open>pd.to_datetime\<close>.
\<close>

definition to_numeric :: "(string \<Rightarrow> real option) \<Rightarrow> raw_value option \<Rightarrow> real option" where
  "to_numeric parse_num c =
     (case c of None \<Rightarrow> None | Some (RNum x) \<Rightarrow> Some x | Some (RStr t) \<Rightarrow> parse_num t)"

definition to_datetime :: "(string \<Rightarrow> int option) \<Rightarrow> string option \<Rightarrow> int option" where
  "to_datetime parse_date c = (case c of None \<Rightarrow> None | Some t \<Rightarrow> parse_date t)"

text \<open>
  \<^verbatim>\<open>load_data\<close> (the same in all four files), on the parsed JSON array. The default
  \<^verbatim>\<open>df["verified"] = False\<close> is assigned under \<^verbatim>\<open>if "verified" not in df.columns\<close>.
\<close>

definition load_data ::
  "(string \<Rightarrow> int option) \<Rightarrow> (string \<Rightarrow> real option) \<Rightarrow> raw_record list \<Rightarrow> dataframe" where
  "load_data parse_date parse_num arr =
     (let cols = frame_columns arr;
          no_verified = (''verified'' \<notin> set cols)
      in \<lparr>columns = (if no_verified then cols @ [''verified''] else cols),
          rows = map (\<lambda>x.
            \<lparr>reported_date = to_datetime parse_date (cell (raw_reported_date x)),
             state = cell (raw_state x),
             gender = cell (raw_gender x),
             age = to_numeric parse_num (cell (raw_age x)),
             verified = (if no_verified then Some False else cell (raw_verified x))\<rparr>) arr\<rparr>)"

section \<open>Temporal aggregation\<close>

text \<open>
  \<^verbatim>\<open>groupby(key).size()\<close>: one entry per distinct key with the number of rows carrying
  it; rows whose key is missing were dropped before. \<^verbatim>\<open>sort_index\<close> orders the entries by key.
\<close>

definition date_only :: "row list \<Rightarrow> int list" where
  "date_only rs = List.map_filter reported_date rs"

definition groupby_size :: "'k list \<Rightarrow> ('k \<times> int) list" where
  "groupby_size ks = map (\<lambda>k. (k, int (count_list ks k))) (remdups ks)"

definition sort_index :: "('k::linorder \<times> int) list \<Rightarrow> ('k \<times> int) list" where
  "sort_index ser = sort_key fst ser"

text \<open>\<^verbatim>\<open>pd.date_range(start, end)\<close>: every day from start to end, empty when end < start.\<close>

definition date_range :: "int \<Rightarrow> int \<Rightarrow> int list" where
  "date_range a b = [a..b]"

text \<open>\<^verbatim>\<open>ser.reindex(idx, fill_value=0)\<close>: the value of each label of idx, 0 where it has none.\<close>

definition reindex :: "('k \<times> int) list \<Rightarrow> 'k list \<Rightarrow> ('k \<times> int) list" where
  "reindex ser idx = map (\<lambda>k. (k, case map_of ser k of None \<Rightarrow> 0 | Some c \<Rightarrow> c)) idx"

text \<open>
  \<^verbatim>\<open>app1.1.py\<close> lines 119-128, the daily tab: a placeholder (\<open>None\<close>) for an empty view,
  otherwise the counts per day reindexed over the range of the sidebar.
\<close>

definition daily :: "dataframe \<Rightarrow> int \<Rightarrow> int \<Rightarrow> (int \<times> int) list option" where
  "daily v a b =
     (if rows v = [] \<or> ''reported_date'' \<notin> set (columns v) then None
      else Some (reindex (sort_index (groupby_size (date_only (rows v)))) (date_range a b)))"

text \<open>
  \<^verbatim>\<open>app_1.2.py\<close> lines 169-171 (and \<^verbatim>\<open>main.py\<close> line 149):
  \<^verbatim>\<open>resample("D").size()\<close> makes one bin per day from the first to the last date
  that occurs in the view.
\<close>

definition resample_D :: "row list \<Rightarrow> (int \<times> int) list" where
  "resample_D rs =
     (let ds = date_only rs
      in if ds = [] then []
         else map (\<lambda>d. (d, int (count_list ds d))) [Min (set ds) .. Max (set ds)])"

definition daily_series :: "dataframe \<Rightarrow> (int \<times> int) list option" where
  "daily_series v =
     (if rows v \<noteq> [] \<and> ''reported_date'' \<in> set (columns v) \<and> date_only (rows v) \<noteq> []
      then Some (resample_D (rows v)) else None)"

section \<open>Rolling mean, anomalies, day-over-day change\<close>

text \<open>
  \<^verbatim>\<open>rolling(window=w, min_periods=1, center=False).mean()\<close>: the window of index i is
  the last w observations up to and including i; the result is NaN (\<open>None\<close>) when the window
  holds fewer than \<open>min_periods = 1\<close> observations.
\<close>

definition rolling_window :: "nat \<Rightarrow> 'a list \<Rightarrow> nat \<Rightarrow> 'a list" where
  "rolling_window w xs i = drop (Suc i - w) (take (Suc i) xs)"

definition rolling_mean :: "nat \<Rightarrow> int list \<Rightarrow> real option list" where
  "rolling_mean w xs =
     map (\<lambda>i. let win = rolling_window w xs i
              in if length win < 1 then None
                 else Some (real_of_int (sum_list win) / real (length win)))
         [0..<length xs]"

definition rolling_7d :: "int list \<Rightarrow> real option list" where
  "rolling_7d counts = rolling_mean 7 counts"

text \<open>
  The rolling mean in the words of the specification: the value at index i is the mean of
  \<open>series[max(0, i - window + 1) .. i]\<close>.
\<close>

definition spec_rollingMean_at :: "int list \<Rightarrow> nat \<Rightarrow> nat \<Rightarrow> real" where
  "spec_rollingMean_at series window i =
     (let pts = map (\<lambda>j. series ! nat j) [max 0 (int i - int window + 1) .. int i]
      in real_of_int (sum_list pts) / real (length pts))"

text \<open>\<^verbatim>\<open>Series.mean()\<close> and \<^verbatim>\<open>Series.std()\<close> (sample deviation, ddof = 1); NaN is \<open>None\<close>.\<close>

definition series_mean :: "int list \<Rightarrow> real option" where
  "series_mean xs =
     (if xs = [] then None else Some (real_of_int (sum_list xs) / real (length xs)))"

definition series_std :: "int list \<Rightarrow> real option" where
  "series_std xs =
     (if length xs < 2 then None
      else let m = real_of_int (sum_list xs) / real (length xs)
           in Some (sqrt (sum_list (map (\<lambda>x. (real_of_int x - m)\<^sup>2) xs) / real (length xs - 1))))"

definition gt_na :: "real option \<Rightarrow> real \<Rightarrow> bool" where
  "gt_na c x = (case c of None \<Rightarrow> False | Some v \<Rightarrow> x < v)"

text \<open>
  \<^verbatim>\<open>app1.1.py\<close> lines 134-137. A comparison with NaN is False: \<^verbatim>\<open>std() > 0\<close> fails
  for the NaN deviation of a one-point series, and no count exceeds a NaN threshold.
\<close>

definition anomaly :: "int list \<Rightarrow> bool list" where
  "anomaly counts =
     (let global_mean = series_mean counts;
          global_std = (if gt_na (series_std counts) 0 then the (series_std counts) else 0);
          threshold = map_option (\<lambda>m. m + 2 * global_std) global_mean
      in map (\<lambda>c. case threshold of None \<Rightarrow> False | Some t \<Rightarrow> t < real_of_int c) counts)"

text \<open>
  Anomaly detection in the words of the specification: the points whose count is greater
  than mean(series) + k * stddev(series), both taken once over the whole series. The
  deviation is the sample deviation (the one \<^verbatim>\<open>Series.std()\<close> computes), and 0 for a series
  of fewer than two points, which has none.
\<close>

definition spec_mean :: "int list \<Rightarrow> real" where
  "spec_mean series = real_of_int (sum_list series) / real (length series)"

definition spec_stddev :: "int list \<Rightarrow> real" where
  "spec_stddev series =
     (if length series < 2 then 0
      else sqrt (sum_list (map (\<lambda>x. (real_of_int x - spec_mean series)\<^sup>2) series) /
                 real (length series - 1)))"

definition spec_detectAnomalies :: "int list \<Rightarrow> real \<Rightarrow> bool list" where
  "spec_detectAnomalies series k =
     map (\<lambda>c. spec_mean series + k * spec_stddev series < real_of_int c) series"

text \<open>\<^verbatim>\<open>app1.1.py\<close> lines 86-93.\<close>

definition compute_latest_dod :: "int list \<Rightarrow> real option" where
  "compute_latest_dod series =
     (if length series < 2 then None
      else let last = series ! (length series - 1);
               prev = series ! (length series - 2)
           in if prev = 0 then None
              else Some (real_of_int (last - prev) / real_of_int prev * 100))"

text \<open>\<^verbatim>\<open>app1.1.py\<close> lines 96-105: the value of the KPI, \<open>None\<close> is shown as "N/A".\<close>

definition dod_pct :: "dataframe \<Rightarrow> real option" where
  "dod_pct v =
     (if rows v \<noteq> [] \<and> ''reported_date'' \<in> set (columns v)
      then let daily_all = map snd (sort_index (groupby_size (date_only (rows v))))
           in if length daily_all \<ge> 2 then compute_latest_dod daily_all else None
      else None)"

section \<open>Top states over time\<close>












section \<open>Sample data\<close>

definition all_columns :: "string list" where
  "all_columns = [''reported_date'', ''state'', ''gender'', ''age'', ''verified'']"

definition row_a :: row where
  "row_a = \<lparr>reported_date = Some 1, state = Some ''A'', gender = Some ''F'',
            age = Some 30, verified = Some True\<rparr>"

definition row_b :: row where
  "row_b = \<lparr>reported_date = Some 3, state = Some ''B'', gender = Some ''M'',
            age = None, verified = Some False\<rparr>"

definition row_c :: row where
  "row_c = \<lparr>reported_date = Some 1, state = None, gender = None,
            age = Some 41, verified = None\<rparr>"

definition sample_df :: dataframe where
  "sample_df = \<lparr>columns = all_columns, rows = [row_a, row_b, row_c]\<rparr>"

definition sample_spec :: filter_spec where
  "sample_spec = \<lparr>start = 1, end_dt = 3, selected_states = [''A'', ''B''],
                  verified_only = False, age_range = (0, 100), selected_genders = [''F'', ''M'']\<rparr>"

definition sample_query :: query where
  "sample_query = \<lparr>start_date = Some 1, end_date = Some 3, states = [''A'', ''B''],
                   verified_only_arg = False, min_age = Some 0, max_age = None\<rparr>"



definition raw_with_verified :: raw_record where
  "raw_with_verified = \<lparr>raw_reported_date = Val ''2024-01-01'', raw_state = Val ''A'',
     raw_gender = Absent, raw_age = Val (RNum 30), raw_verified = Val True\<rparr>"

definition raw_without_verified :: raw_record where
  "raw_without_verified = \<lparr>raw_reported_date = Val ''2024-01-03'', raw_state = Val ''B'',
     raw_gender = Absent, raw_age = Null, raw_verified = Absent\<rparr>"


definition sample_parse_date :: "string \<Rightarrow> int option" where
  "sample_parse_date t =
     (if t = ''2024-01-01'' then Some 1 else if t = ''2024-01-03'' then Some 3 else None)"

definition sample_parse_num :: "string \<Rightarrow> real option" where
  "sample_parse_num t = None"




lemma fdf_rows: "fdf df s = Inr v \<Longrightarrow> v = df\<lparr>rows := filter (row_mask df s) (rows df)\<rparr>"
  unfolding fdf_def by (simp split: option.splits)

lemma fdf_v12_rows: "fdf_v12 df s = Inr v \<Longrightarrow> v = df\<lparr>rows := filter (mask_v12 df s) (rows df)\<rparr>"
  unfolding fdf_v12_def by (simp split: option.splits)

lemma filtered_df_rows:
  "filtered_df df q = Inr v \<Longrightarrow> v = df\<lparr>rows := filter (get_data_mask q) (rows df)\<rparr>"
  unfolding filtered_df_def by (simp split: option.splits)

lemma fdf_no_raise: "fdf df s = Inr v \<Longrightarrow> fdf_raises df s = None"
  unfolding fdf_def by (simp split: option.splits)

lemma fdf_v12_no_raise: "fdf_v12 df s = Inr v \<Longrightarrow> fdf_raises df s = None"
  unfolding fdf_v12_def by (simp split: option.splits)

lemma filtered_df_no_raise: "filtered_df df q = Inr v \<Longrightarrow> get_data_raises df q = None"
  unfolding filtered_df_def by (simp split: option.splits)

lemma mask_columns: "columns v = columns df \<Longrightarrow> row_mask v s = row_mask df s"
  unfolding row_mask_def by simp

lemma mask_v12_columns:
  assumes "columns v = columns df" shows "mask_v12 v s = mask_v12 df s"
  unfolding mask_v12_def mask_columns[OF assms] using assms by simp

lemma fdf_raises_columns: "columns v = columns df \<Longrightarrow> fdf_raises v s = fdf_raises df s"
  unfolding fdf_raises_def by simp

lemma get_data_raises_columns:
  "columns v = columns df \<Longrightarrow> get_data_raises v q = get_data_raises df q"
  unfolding get_data_raises_def by simp

lemma fdf_idem: 
  assumes a: "fdf df s = Inr v" shows "fdf v s = Inr v"
proof -
  define w where "w = df\<lparr>rows := filter (row_mask df s) (rows df)\<rparr>"
  have v: "v = w" using fdf_rows[OF a] by (simp add: w_def)
  have c: "columns w = columns df" by (simp add: w_def)
  have m: "row_mask w s = row_mask df s" by (rule mask_columns[OF c])
  have r: "filter (row_mask df s) (rows w) = rows w" by (simp add: w_def)
  have g: "fdf_raises w s = None"
    unfolding fdf_raises_columns[OF c] by (rule fdf_no_raise[OF a])
  have "fdf w s = Inr (w\<lparr>rows := filter (row_mask w s) (rows w)\<rparr>)"
    unfolding fdf_def g by simp
  also have "w\<lparr>rows := filter (row_mask w s) (rows w)\<rparr> = w"
    unfolding m r by simp
  finally show ?thesis unfolding v .
qed

lemma fdf_v12_idem: 
  assumes a: "fdf_v12 df s = Inr v" shows "fdf_v12 v s = Inr v"
proof -
  define w where "w = df\<lparr>rows := filter (mask_v12 df s) (rows df)\<rparr>"
  have v: "v = w" using fdf_v12_rows[OF a] by (simp add: w_def)
  have c: "columns w = columns df" by (simp add: w_def)
  have m: "mask_v12 w s = mask_v12 df s" by (rule mask_v12_columns[OF c])
  have r: "filter (mask_v12 df s) (rows w) = rows w" by (simp add: w_def)
  have g: "fdf_raises w s = None"
    unfolding fdf_raises_columns[OF c] by (rule fdf_v12_no_raise[OF a])
  have "fdf_v12 w s = Inr (w\<lparr>rows := filter (mask_v12 w s) (rows w)\<rparr>)"
    unfolding fdf_v12_def g by simp
  also have "w\<lparr>rows := filter (mask_v12 w s) (rows w)\<rparr> = w"
    unfolding m r by simp
  finally show ?thesis unfolding v .
qed

lemma filtered_df_idem:
  assumes a: "filtered_df df q = Inr v" shows "filtered_df v q = Inr v"
proof -
  define w where "w = df\<lparr>rows := filter (get_data_mask q) (rows df)\<rparr>"
  have v: "v = w" using filtered_df_rows[OF a] by (simp add: w_def)
  have c: "columns w = columns df" by (simp add: w_def)
  have r: "filter (get_data_mask q) (rows w) = rows w" by (simp add: w_def)
  have g: "get_data_raises w q = None"
    unfolding get_data_raises_columns[OF c] by (rule filtered_df_no_raise[OF a])
  have "filtered_df w q = Inr (w\<lparr>rows := filter (get_data_mask q) (rows w)\<rparr>)"
    unfolding filtered_df_def g by simp
  also have "w\<lparr>rows := filter (get_data_mask q) (rows w)\<rparr> = w"
    unfolding r by simp
  finally show ?thesis unfolding v .
qed




theorem filter_narrows_and_is_idempotent:
  "(fdf df s = Inr v \<longrightarrow>
      set (rows v) \<subseteq> set (rows df) \<and> length (rows v) \<le> length (rows df) \<and> fdf v s = Inr v) \<and>
   (fdf_v12 df s = Inr v \<longrightarrow>
      set (rows v) \<subseteq> set (rows df) \<and> length (rows v) \<le> length (rows df) \<and>
      fdf_v12 v s = Inr v) \<and>
   (filtered_df df q = Inr v \<longrightarrow>
      set (rows v) \<subseteq> set (rows df) \<and> length (rows v) \<le> length (rows df) \<and>
      filtered_df v q = Inr v)"
proof (intro conjI impI)
  assume a: "fdf df s = Inr v"
  have r: "rows v = filter (row_mask df s) (rows df)" by (subst fdf_rows[OF a]) simp
  show "set (rows v) \<subseteq> set (rows df)" unfolding r by (rule filter_is_subset)
  show "length (rows v) \<le> length (rows df)" unfolding r by (rule length_filter_le)
  from fdf_idem[OF a] show "fdf v s = Inr v" .
next
  assume a: "fdf_v12 df s = Inr v"
  have r: "rows v = filter (mask_v12 df s) (rows df)" by (subst fdf_v12_rows[OF a]) simp
  show "set (rows v) \<subseteq> set (rows df)" unfolding r by (rule filter_is_subset)
  show "length (rows v) \<le> length (rows df)" unfolding r by (rule length_filter_le)
  from fdf_v12_idem[OF a] show "fdf_v12 v s = Inr v" .
next
  assume a: "filtered_df df q = Inr v"
  have r: "rows v = filter (get_data_mask q) (rows df)" by (subst filtered_df_rows[OF a]) simp
  show "set (rows v) \<subseteq> set (rows df)" unfolding r by (rule filter_is_subset)
  show "length (rows v) \<le> length (rows df)" unfolding r by (rule length_filter_le)
  from filtered_df_idem[OF a] show "filtered_df v q = Inr v" .
qed

lemmas sample_defs = sample_df_def sample_spec_def sample_query_def all_columns_def
  row_a_def row_b_def row_c_def

lemmas filter_defs = fdf_def fdf_v12_def filtered_df_def fdf_raises_def get_data_raises_def
  row_mask_def mask_v12_def get_data_mask_def ge_na_def le_na_def isin_def

lemma sample_fdf: "fdf sample_df sample_spec = Inr (sample_df\<lparr>rows := [row_a]\<rparr>)"
  by (simp add: sample_defs filter_defs)

lemma sample_fdf_v12: "fdf_v12 sample_df sample_spec = Inr (sample_df\<lparr>rows := [row_a]\<rparr>)"
  by (simp add: sample_defs filter_defs)

lemma sample_filtered_df:
  "filtered_df sample_df sample_query = Inr (sample_df\<lparr>rows := [row_a]\<rparr>)"
  by (simp add: sample_defs filter_defs)

theorem filter_narrows_and_is_idempotent_witness:
  "fdf sample_df sample_spec = Inr (sample_df\<lparr>rows := [row_a]\<rparr>) \<and>
   length (rows (sample_df\<lparr>rows := [row_a]\<rparr>)) \<le> length (rows sample_df) \<and>
   fdf (sample_df\<lparr>rows := [row_a]\<rparr>) sample_spec = Inr (sample_df\<lparr>rows := [row_a]\<rparr>) \<and>
   fdf_v12 (sample_df\<lparr>rows := [row_a]\<rparr>) sample_spec = Inr (sample_df\<lparr>rows := [row_a]\<rparr>) \<and>
   filtered_df (sample_df\<lparr>rows := [row_a]\<rparr>) sample_query = Inr (sample_df\<lparr>rows := [row_a]\<rparr>)"
  using filter_narrows_and_is_idempotent
    [of sample_df sample_spec "sample_df\<lparr>rows := [row_a]\<rparr>" sample_query]
    sample_fdf sample_fdf_v12 sample_filtered_df
  by blast

lemma row_mask_age:
  "''age'' \<in> set (columns df) \<Longrightarrow> row_mask df s r \<Longrightarrow> age r \<noteq> None"
  unfolding row_mask_def ge_na_def by (simp add: Let_def split: option.splits)

lemma row_mask_age_bounds:
  "''age'' \<in> set (columns df) \<Longrightarrow> row_mask df s r \<Longrightarrow>
   ge_na (age r) (real_of_int (fst (age_range s))) \<and> le_na (age r) (real_of_int (snd (age_range s)))"
  unfolding row_mask_def by (simp add: Let_def)

lemma mask_v12_imp: "mask_v12 df s r \<Longrightarrow> row_mask df s r"
  unfolding mask_v12_def by (simp add: Let_def split: if_splits)

lemma filter_drop_missing:
  "(\<And>r. P r \<Longrightarrow> Q r) \<Longrightarrow> filter P (filter Q xs) = filter P xs"
  by (induction xs) auto

text \<open>
  C10. In the dashboard filter (with and without the gender predicate), when the age column
  is present a missing age fails both inclusive bounds, so every record of the filtered view
  has an age, within the selected range, and the view is the same as the view of the store
  without its missing-age records: they reach no downstream aggregate.
\<close>

theorem missing_age_excluded_from_view:
  assumes "''age'' \<in> set (columns df)"
  shows "\<not> ge_na (None :: real option) lo \<and> \<not> le_na (None :: real option) hi \<and>
    (fdf df s = Inr v \<longrightarrow>
       (\<forall>r \<in> set (rows v). \<exists>a. age r = Some a \<and>
          real_of_int (fst (age_range s)) \<le> a \<and> a \<le> real_of_int (snd (age_range s))) \<and>
       fdf (df\<lparr>rows := filter (\<lambda>r. age r \<noteq> None) (rows df)\<rparr>) s = Inr v) \<and>
    (fdf_v12 df s = Inr v \<longrightarrow>
       (\<forall>r \<in> set (rows v). \<exists>a. age r = Some a \<and>
          real_of_int (fst (age_range s)) \<le> a \<and> a \<le> real_of_int (snd (age_range s))) \<and>
       fdf_v12 (df\<lparr>rows := filter (\<lambda>r. age r \<noteq> None) (rows df)\<rparr>) s = Inr v)"
proof (intro conjI impI ballI)
  show "\<not> ge_na (None :: real option) lo" by (simp add: ge_na_def)
  show "\<not> le_na (None :: real option) hi" by (simp add: le_na_def)
next
  fix r assume a: "fdf df s = Inr v" and r: "r \<in> set (rows v)"
  have "rows v = filter (row_mask df s) (rows df)" by (subst fdf_rows[OF a]) simp
  with r have m: "row_mask df s r" by simp
  from row_mask_age_bounds[OF assms m]
  show "\<exists>a. age r = Some a \<and>
          real_of_int (fst (age_range s)) \<le> a \<and> a \<le> real_of_int (snd (age_range s))"
    by (cases "age r") (simp_all add: ge_na_def le_na_def)
next
  assume a: "fdf df s = Inr v"
  define d where "d = df\<lparr>rows := filter (\<lambda>r. age r \<noteq> None) (rows df)\<rparr>"
  have c: "columns d = columns df" by (simp add: d_def)
  have g: "fdf_raises d s = None"
    unfolding fdf_raises_columns[OF c] by (rule fdf_no_raise[OF a])
  have f: "filter (row_mask df s) (rows d) = filter (row_mask df s) (rows df)"
    unfolding d_def using filter_drop_missing[of "row_mask df s" "\<lambda>r. age r \<noteq> None" "rows df"]
      row_mask_age[OF assms] by simp
  have "fdf d s = Inr (d\<lparr>rows := filter (row_mask d s) (rows d)\<rparr>)"
    unfolding fdf_def g by simp
  also have "d\<lparr>rows := filter (row_mask d s) (rows d)\<rparr> = df\<lparr>rows := filter (row_mask df s) (rows df)\<rparr>"
    unfolding mask_columns[OF c] f by (simp add: d_def)
  also have "\<dots> = v" by (rule fdf_rows[OF a, symmetric])
  finally show "fdf (df\<lparr>rows := filter (\<lambda>r. age r \<noteq> None) (rows df)\<rparr>) s = Inr v"
    unfolding d_def .
next
  fix r assume a: "fdf_v12 df s = Inr v" and r: "r \<in> set (rows v)"
  have "rows v = filter (mask_v12 df s) (rows df)" by (subst fdf_v12_rows[OF a]) simp
  with r have m: "row_mask df s r" by (simp add: mask_v12_imp)
  from row_mask_age_bounds[OF assms m]
  show "\<exists>a. age r = Some a \<and>
          real_of_int (fst (age_range s)) \<le> a \<and> a \<le> real_of_int (snd (age_range s))"
    by (cases "age r") (simp_all add: ge_na_def le_na_def)
next
  assume a: "fdf_v12 df s = Inr v"
  define d where "d = df\<lparr>rows := filter (\<lambda>r. age r \<noteq> None) (rows df)\<rparr>"
  have c: "columns d = columns df" by (simp add: d_def)
  have g: "fdf_raises d s = None"
    unfolding fdf_raises_columns[OF c] by (rule fdf_v12_no_raise[OF a])
  have "\<And>r. mask_v12 df s r \<Longrightarrow> age r \<noteq> None"
    using row_mask_age[OF assms] mask_v12_imp by blast
  then have f: "filter (mask_v12 df s) (rows d) = filter (mask_v12 df s) (rows df)"
    unfolding d_def using filter_drop_missing[of "mask_v12 df s" "\<lambda>r. age r \<noteq> None" "rows df"]
    by simp
  have "fdf_v12 d s = Inr (d\<lparr>rows := filter (mask_v12 d s) (rows d)\<rparr>)"
    unfolding fdf_v12_def g by simp
  also have "d\<lparr>rows := filter (mask_v12 d s) (rows d)\<rparr> = df\<lparr>rows := filter (mask_v12 df s) (rows df)\<rparr>"
    unfolding mask_v12_columns[OF c] f by (simp add: d_def)
  also have "\<dots> = v" by (rule fdf_v12_rows[OF a, symmetric])
  finally show "fdf_v12 (df\<lparr>rows := filter (\<lambda>r. age r \<noteq> None) (rows df)\<rparr>) s = Inr v"
    unfolding d_def .
qed

lemma sample_drop_missing_age:
  "sample_df\<lparr>rows := filter (\<lambda>r. age r \<noteq> None) (rows sample_df)\<rparr> = sample_df\<lparr>rows := [row_a, row_c]\<rparr>"
  by (simp add: sample_defs)

theorem missing_age_excluded_from_view_witness:
  "''age'' \<in> set (columns sample_df) \<and>
   fdf sample_df sample_spec = Inr (sample_df\<lparr>rows := [row_a]\<rparr>) \<and>
   age row_b = None \<and> row_b \<in> set (rows sample_df) \<and>
   row_b \<notin> set (rows (sample_df\<lparr>rows := [row_a]\<rparr>)) \<and>
   fdf (sample_df\<lparr>rows := [row_a, row_c]\<rparr>) sample_spec = Inr (sample_df\<lparr>rows := [row_a]\<rparr>) \<and>
   fdf_v12 (sample_df\<lparr>rows := [row_a, row_c]\<rparr>) sample_spec = Inr (sample_df\<lparr>rows := [row_a]\<rparr>)"
proof -
  have h: "''age'' \<in> set (columns sample_df)" by (simp add: sample_defs)
  have b: "age row_b = None \<and> row_b \<in> set (rows sample_df) \<and>
           row_b \<notin> set (rows (sample_df\<lparr>rows := [row_a]\<rparr>))"
    by (simp add: sample_defs)
  show ?thesis
    using missing_age_excluded_from_view
      [OF h, of 0 0 sample_spec "sample_df\<lparr>rows := [row_a]\<rparr>"]
      sample_fdf sample_fdf_v12 h b
    unfolding sample_drop_missing_age by blast
qed

lemma isin_full: "\<forall>x. c = Some x \<longrightarrow> x \<in> set full \<Longrightarrow> isin c full = (c \<noteq> None)"
  unfolding isin_def by (cases c) simp_all

lemma row_mask_states_full:
  assumes "selected_states s = []" "full \<noteq> []" "\<forall>x. state r = Some x \<longrightarrow> x \<in> set full"
  shows "row_mask df (s\<lparr>selected_states := full\<rparr>) r = (row_mask df s r \<and> state r \<noteq> None)"
  unfolding row_mask_def using assms isin_full[OF assms(3)] by (auto simp add: Let_def)

lemma get_data_mask_states_full:
  assumes "states q = []" "full \<noteq> []" "\<forall>x. state r = Some x \<longrightarrow> x \<in> set full"
  shows "get_data_mask (q\<lparr>states := full\<rparr>) r = (get_data_mask q r \<and> state r \<noteq> None)"
  unfolding get_data_mask_def using assms isin_full[OF assms(3)] by (auto simp add: Let_def)

lemma filter_cong_set: "(\<And>r. r \<in> set xs \<Longrightarrow> P r = Q r) \<Longrightarrow> filter P xs = filter Q xs"
  by (rule filter_cong) simp_all

lemma row_mask_no_states:
  "selected_states s = [] \<Longrightarrow>
   row_mask df s r =
     ((''reported_date'' \<in> set (columns df) \<longrightarrow>
         ge_na (reported_date r) (start s) \<and> le_na (reported_date r) (end_dt s)) \<and>
      (verified_only s \<longrightarrow> verified r = Some True) \<and>
      (''age'' \<in> set (columns df) \<longrightarrow>
         ge_na (age r) (real_of_int (fst (age_range s))) \<and>
         le_na (age r) (real_of_int (snd (age_range s)))))"
  unfolding row_mask_def by (auto simp add: Let_def)

lemma get_data_mask_no_states:
  "states q = [] \<Longrightarrow>
   get_data_mask q r =
     ((start_date q \<noteq> None \<and> end_date q \<noteq> None \<longrightarrow>
         ge_na (reported_date r) (the (start_date q)) \<and>
         le_na (reported_date r) (the (end_date q))) \<and>
      (verified_only_arg q \<longrightarrow> verified r = Some True) \<and>
      (min_age q \<noteq> None \<longrightarrow> ge_na (age r) (the (min_age q))) \<and>
      (max_age q \<noteq> None \<longrightarrow> le_na (age r) (the (max_age q))))"
  unfolding get_data_mask_def by (auto simp add: Let_def)

lemma fdf_no_states_returns:
  "selected_states s = [] \<Longrightarrow> verified_only s \<longrightarrow> ''verified'' \<in> set (columns df) \<Longrightarrow>
   fdf df s = Inr (df\<lparr>rows := filter (row_mask df s) (rows df)\<rparr>)"
  unfolding fdf_def fdf_raises_def by simp

lemma empty_selection_vs_full_set:
  assumes "full \<noteq> []" and "\<forall>r \<in> set (rows df). \<forall>x. state r = Some x \<longrightarrow> x \<in> set full"
    and "''state'' \<in> set (columns df)"
  shows "(selected_states s = [] \<and> fdf df s = Inr v \<longrightarrow>
           fdf df (s\<lparr>selected_states := full\<rparr>) =
             Inr (v\<lparr>rows := filter (\<lambda>r. state r \<noteq> None) (rows v)\<rparr>)) \<and>
         (states q = [] \<and> filtered_df df q = Inr v \<longrightarrow>
           filtered_df df (q\<lparr>states := full\<rparr>) =
             Inr (v\<lparr>rows := filter (\<lambda>r. state r \<noteq> None) (rows v)\<rparr>))"
proof (intro conjI impI)
  assume "selected_states s = [] \<and> fdf df s = Inr v"
  then have e: "selected_states s = []" and a: "fdf df s = Inr v" by simp_all
  have g: "fdf_raises df (s\<lparr>selected_states := full\<rparr>) = None"
    using fdf_no_raise[OF a] assms(3) unfolding fdf_raises_def by (simp split: if_splits)
  have m: "filter (row_mask df (s\<lparr>selected_states := full\<rparr>)) (rows df) =
           filter (\<lambda>r. row_mask df s r \<and> state r \<noteq> None) (rows df)"
    by (rule filter_cong_set) (use assms e in \<open>simp add: row_mask_states_full\<close>)
  have "fdf df (s\<lparr>selected_states := full\<rparr>) =
        Inr (df\<lparr>rows := filter (row_mask df (s\<lparr>selected_states := full\<rparr>)) (rows df)\<rparr>)"
    unfolding fdf_def g by simp
  also have "df\<lparr>rows := filter (row_mask df (s\<lparr>selected_states := full\<rparr>)) (rows df)\<rparr> =
             v\<lparr>rows := filter (\<lambda>r. state r \<noteq> None) (rows v)\<rparr>"
    unfolding m by (subst (1 2) fdf_rows[OF a]) simp
  finally show "fdf df (s\<lparr>selected_states := full\<rparr>) =
             Inr (v\<lparr>rows := filter (\<lambda>r. state r \<noteq> None) (rows v)\<rparr>)" .
next
  assume "states q = [] \<and> filtered_df df q = Inr v"
  then have e: "states q = []" and a: "filtered_df df q = Inr v" by simp_all
  have g: "get_data_raises df (q\<lparr>states := full\<rparr>) = None"
    using filtered_df_no_raise[OF a] assms(3) unfolding get_data_raises_def
    by (auto split: if_splits)
  have m: "filter (get_data_mask (q\<lparr>states := full\<rparr>)) (rows df) =
           filter (\<lambda>r. get_data_mask q r \<and> state r \<noteq> None) (rows df)"
    by (rule filter_cong_set) (use assms e in \<open>simp add: get_data_mask_states_full\<close>)
  have "filtered_df df (q\<lparr>states := full\<rparr>) =
        Inr (df\<lparr>rows := filter (get_data_mask (q\<lparr>states := full\<rparr>)) (rows df)\<rparr>)"
    unfolding filtered_df_def g by simp
  also have "df\<lparr>rows := filter (get_data_mask (q\<lparr>states := full\<rparr>)) (rows df)\<rparr> =
             v\<lparr>rows := filter (\<lambda>r. state r \<noteq> None) (rows v)\<rparr>"
    unfolding m by (subst (1 2) filtered_df_rows[OF a]) simp
  finally show "filtered_df df (q\<lparr>states := full\<rparr>) =
             Inr (v\<lparr>rows := filter (\<lambda>r. state r \<noteq> None) (rows v)\<rparr>)" .
qed

text \<open>
  C1 (as the code has it). An empty accepted-state set makes the filter skip the state
  predicate. For every store and every such selection the filter returns a view (it does
  not read the state column), and the view consists of exactly the rows that satisfy the
  remaining predicates (date, verified only, age), whatever their state and also when
  their state is missing: a row is never dropped for its state, so the empty set does not
  mean "none selected". The same holds for \<^verbatim>\<open>/api/data\<close>. Passing instead a non-empty set
  that holds every state of the store gives the same view without its rows of missing state.
\<close>

theorem empty_state_selection_is_no_restriction:
  "(selected_states s = [] \<and> (verified_only s \<longrightarrow> ''verified'' \<in> set (columns df)) \<longrightarrow>
      (\<exists>u. fdf df s = Inr u)) \<and>
   (selected_states s = [] \<and> fdf df s = Inr v \<longrightarrow>
      rows v = filter (\<lambda>r.
        (''reported_date'' \<in> set (columns df) \<longrightarrow>
           ge_na (reported_date r) (start s) \<and> le_na (reported_date r) (end_dt s)) \<and>
        (verified_only s \<longrightarrow> verified r = Some True) \<and>
        (''age'' \<in> set (columns df) \<longrightarrow>
           ge_na (age r) (real_of_int (fst (age_range s))) \<and>
           le_na (age r) (real_of_int (snd (age_range s))))) (rows df)) \<and>
   (states q = [] \<and> filtered_df df q = Inr v \<longrightarrow>
      rows v = filter (\<lambda>r.
        (start_date q \<noteq> None \<and> end_date q \<noteq> None \<longrightarrow>
           ge_na (reported_date r) (the (start_date q)) \<and>
           le_na (reported_date r) (the (end_date q))) \<and>
        (verified_only_arg q \<longrightarrow> verified r = Some True) \<and>
        (min_age q \<noteq> None \<longrightarrow> ge_na (age r) (the (min_age q))) \<and>
        (max_age q \<noteq> None \<longrightarrow> le_na (age r) (the (max_age q)))) (rows df)) \<and>
   (full \<noteq> [] \<and> (\<forall>r \<in> set (rows df). \<forall>x. state r = Some x \<longrightarrow> x \<in> set full) \<and>
    ''state'' \<in> set (columns df) \<longrightarrow>
      (selected_states s = [] \<and> fdf df s = Inr v \<longrightarrow>
         fdf df (s\<lparr>selected_states := full\<rparr>) =
           Inr (v\<lparr>rows := filter (\<lambda>r. state r \<noteq> None) (rows v)\<rparr>)) \<and>
      (states q = [] \<and> filtered_df df q = Inr v \<longrightarrow>
         filtered_df df (q\<lparr>states := full\<rparr>) =
           Inr (v\<lparr>rows := filter (\<lambda>r. state r \<noteq> None) (rows v)\<rparr>)))"
proof (intro conjI)
  show "selected_states s = [] \<and> (verified_only s \<longrightarrow> ''verified'' \<in> set (columns df)) \<longrightarrow>
      (\<exists>u. fdf df s = Inr u)"
    using fdf_no_states_returns[of s df] by blast
next
  show "selected_states s = [] \<and> fdf df s = Inr v \<longrightarrow>
      rows v = filter (\<lambda>r.
        (''reported_date'' \<in> set (columns df) \<longrightarrow>
           ge_na (reported_date r) (start s) \<and> le_na (reported_date r) (end_dt s)) \<and>
        (verified_only s \<longrightarrow> verified r = Some True) \<and>
        (''age'' \<in> set (columns df) \<longrightarrow>
           ge_na (age r) (real_of_int (fst (age_range s))) \<and>
           le_na (age r) (real_of_int (snd (age_range s))))) (rows df)"
  proof
    assume h: "selected_states s = [] \<and> fdf df s = Inr v"
    then have e: "selected_states s = []" and a: "fdf df s = Inr v" by simp_all
    have "rows v = filter (row_mask df s) (rows df)" by (subst fdf_rows[OF a]) simp
    also have "\<dots> = filter (\<lambda>r.
        (''reported_date'' \<in> set (columns df) \<longrightarrow>
           ge_na (reported_date r) (start s) \<and> le_na (reported_date r) (end_dt s)) \<and>
        (verified_only s \<longrightarrow> verified r = Some True) \<and>
        (''age'' \<in> set (columns df) \<longrightarrow>
           ge_na (age r) (real_of_int (fst (age_range s))) \<and>
           le_na (age r) (real_of_int (snd (age_range s))))) (rows df)"
      by (rule filter_cong_set) (rule row_mask_no_states[OF e])
    finally show "rows v = filter (\<lambda>r.
        (''reported_date'' \<in> set (columns df) \<longrightarrow>
           ge_na (reported_date r) (start s) \<and> le_na (reported_date r) (end_dt s)) \<and>
        (verified_only s \<longrightarrow> verified r = Some True) \<and>
        (''age'' \<in> set (columns df) \<longrightarrow>
           ge_na (age r) (real_of_int (fst (age_range s))) \<and>
           le_na (age r) (real_of_int (snd (age_range s))))) (rows df)" .
  qed
next
  show "states q = [] \<and> filtered_df df q = Inr v \<longrightarrow>
      rows v = filter (\<lambda>r.
        (start_date q \<noteq> None \<and> end_date q \<noteq> None \<longrightarrow>
           ge_na (reported_date r) (the (start_date q)) \<and>
           le_na (reported_date r) (the (end_date q))) \<and>
        (verified_only_arg q \<longrightarrow> verified r = Some True) \<and>
        (min_age q \<noteq> None \<longrightarrow> ge_na (age r) (the (min_age q))) \<and>
        (max_age q \<noteq> None \<longrightarrow> le_na (age r) (the (max_age q)))) (rows df)"
  proof
    assume h: "states q = [] \<and> filtered_df df q = Inr v"
    then have e: "states q = []" and a: "filtered_df df q = Inr v" by simp_all
    have "rows v = filter (get_data_mask q) (rows df)" by (subst filtered_df_rows[OF a]) simp
    also have "\<dots> = filter (\<lambda>r.
        (start_date q \<noteq> None \<and> end_date q \<noteq> None \<longrightarrow>
           ge_na (reported_date r) (the (start_date q)) \<and>
           le_na (reported_date r) (the (end_date q))) \<and>
        (verified_only_arg q \<longrightarrow> verified r = Some True) \<and>
        (min_age q \<noteq> None \<longrightarrow> ge_na (age r) (the (min_age q))) \<and>
        (max_age q \<noteq> None \<longrightarrow> le_na (age r) (the (max_age q)))) (rows df)"
      by (rule filter_cong_set) (rule get_data_mask_no_states[OF e])
    finally show "rows v = filter (\<lambda>r.
        (start_date q \<noteq> None \<and> end_date q \<noteq> None \<longrightarrow>
           ge_na (reported_date r) (the (start_date q)) \<and>
           le_na (reported_date r) (the (end_date q))) \<and>
        (verified_only_arg q \<longrightarrow> verified r = Some True) \<and>
        (min_age q \<noteq> None \<longrightarrow> ge_na (age r) (the (min_age q))) \<and>
        (max_age q \<noteq> None \<longrightarrow> le_na (age r) (the (max_age q)))) (rows df)" .
  qed
next
  show "full \<noteq> [] \<and> (\<forall>r \<in> set (rows df). \<forall>x. state r = Some x \<longrightarrow> x \<in> set full) \<and>
    ''state'' \<in> set (columns df) \<longrightarrow>
      (selected_states s = [] \<and> fdf df s = Inr v \<longrightarrow>
         fdf df (s\<lparr>selected_states := full\<rparr>) =
           Inr (v\<lparr>rows := filter (\<lambda>r. state r \<noteq> None) (rows v)\<rparr>)) \<and>
      (states q = [] \<and> filtered_df df q = Inr v \<longrightarrow>
         filtered_df df (q\<lparr>states := full\<rparr>) =
           Inr (v\<lparr>rows := filter (\<lambda>r. state r \<noteq> None) (rows v)\<rparr>))"
    using empty_selection_vs_full_set[of full df s v q] by blast
qed

text \<open>
  C1, counterexample to the claim as stated.
  With no state selected the sample store keeps its row of state A and its row without a
  state, in the dashboard and in \<^verbatim>\<open>/api/data\<close>: the state predicate was dropped.
\<close>

theorem empty_state_selection_counterexample:
  "selected_states (sample_spec\<lparr>selected_states := []\<rparr>) = [] \<and>
   fdf sample_df (sample_spec\<lparr>selected_states := []\<rparr>) = Inr (sample_df\<lparr>rows := [row_a, row_c]\<rparr>) \<and>
   filtered_df sample_df (sample_query\<lparr>states := []\<rparr>) = Inr (sample_df\<lparr>rows := [row_a, row_c]\<rparr>) \<and>
   \<not> isin (state row_a) (selected_states (sample_spec\<lparr>selected_states := []\<rparr>)) \<and>
   fdf (sample_df\<lparr>rows := [row_a, row_b]\<rparr>) (sample_spec\<lparr>selected_states := []\<rparr>) =
   fdf (sample_df\<lparr>rows := [row_a, row_b]\<rparr>) sample_spec"
  by (simp add: sample_defs filter_defs)

lemma sample_fdf_no_states:
  "fdf sample_df (sample_spec\<lparr>selected_states := []\<rparr>) = Inr (sample_df\<lparr>rows := [row_a, row_c]\<rparr>)"
  by (simp add: sample_defs filter_defs)

lemma sample_filtered_df_no_states:
  "filtered_df sample_df (sample_query\<lparr>states := []\<rparr>) = Inr (sample_df\<lparr>rows := [row_a, row_c]\<rparr>)"
  by (simp add: sample_defs filter_defs)

theorem empty_state_selection_is_no_restriction_witness:
  "fdf sample_df (sample_spec\<lparr>selected_states := []\<rparr>) = Inr (sample_df\<lparr>rows := [row_a, row_c]\<rparr>) \<and>
   state row_c = None \<and>
   row_c \<in> set (rows (sample_df\<lparr>rows := [row_a, row_c]\<rparr>)) \<and>
   fdf sample_df (sample_spec\<lparr>selected_states := [''A'', ''B'']\<rparr>) = Inr (sample_df\<lparr>rows := [row_a]\<rparr>) \<and>
   filtered_df sample_df (sample_query\<lparr>states := [''A'', ''B'']\<rparr>) = Inr (sample_df\<lparr>rows := [row_a]\<rparr>)"
proof -
  have h1: "[''A'', ''B''] \<noteq> []" by simp
  have h2: "\<forall>r \<in> set (rows sample_df). \<forall>x. state r = Some x \<longrightarrow> x \<in> set [''A'', ''B'']"
    by (simp add: sample_defs)
  have h3: "''state'' \<in> set (columns sample_df)" by (simp add: sample_defs)
  have e: "selected_states (sample_spec\<lparr>selected_states := []\<rparr>) = []"
          "states (sample_query\<lparr>states := []\<rparr>) = []" by simp_all
  have c: "state row_c = None" by (simp add: row_c_def)
  have r: "(sample_df\<lparr>rows := [row_a, row_c]\<rparr>)\<lparr>rows := filter (\<lambda>r. state r \<noteq> None)
             (rows (sample_df\<lparr>rows := [row_a, row_c]\<rparr>))\<rparr> = sample_df\<lparr>rows := [row_a]\<rparr>"
    by (simp add: sample_defs)
  have f: "row_c \<in> set (rows (sample_df\<lparr>rows := [row_a, row_c]\<rparr>))" by simp
  note T = empty_state_selection_is_no_restriction
        [of "sample_spec\<lparr>selected_states := []\<rparr>" sample_df "sample_df\<lparr>rows := [row_a, row_c]\<rparr>"
            "sample_query\<lparr>states := []\<rparr>" "[''A'', ''B'']"]
  from T h1 h2 h3 e sample_fdf_no_states sample_filtered_df_no_states
  have "fdf sample_df (sample_spec\<lparr>selected_states := []\<rparr>\<lparr>selected_states := [''A'', ''B'']\<rparr>) =
          Inr ((sample_df\<lparr>rows := [row_a, row_c]\<rparr>)\<lparr>rows := filter (\<lambda>r. state r \<noteq> None)
             (rows (sample_df\<lparr>rows := [row_a, row_c]\<rparr>))\<rparr>) \<and>
        filtered_df sample_df (sample_query\<lparr>states := []\<rparr>\<lparr>states := [''A'', ''B'']\<rparr>) =
          Inr ((sample_df\<lparr>rows := [row_a, row_c]\<rparr>)\<lparr>rows := filter (\<lambda>r. state r \<noteq> None)
             (rows (sample_df\<lparr>rows := [row_a, row_c]\<rparr>))\<rparr>)"
    by blast
  then have g: "fdf sample_df (sample_spec\<lparr>selected_states := [''A'', ''B'']\<rparr>) =
          Inr (sample_df\<lparr>rows := [row_a]\<rparr>) \<and>
        filtered_df sample_df (sample_query\<lparr>states := [''A'', ''B'']\<rparr>) =
          Inr (sample_df\<lparr>rows := [row_a]\<rparr>)"
    unfolding r by simp
  from g c f sample_fdf_no_states show ?thesis by simp
qed

lemma row_mask_inverted:
  "end_dt s < start s \<Longrightarrow> ''reported_date'' \<in> set (columns df) \<Longrightarrow> \<not> row_mask df s r"
  unfolding row_mask_def ge_na_def le_na_def by (auto simp add: Let_def split: option.splits)

lemma get_data_mask_inverted:
  "start_date q = Some a \<Longrightarrow> end_date q = Some b \<Longrightarrow> b < a \<Longrightarrow> \<not> get_data_mask q r"
  unfolding get_data_mask_def ge_na_def le_na_def by (auto simp add: Let_def split: option.splits)

lemma filter_none: "(\<And>r. \<not> P r) \<Longrightarrow> filter P xs = []"
  by (induction xs) simp_all

text \<open>
  C2 (as the code has it). No filter checks the order of the interval. With start after end,
  and the columns it reads present, the filter does not fail: the date predicate holds for no
  row and the result is the empty view, in the dashboards and in \<^verbatim>\<open>/api/data\<close>.
\<close>

theorem inverted_interval_gives_empty_view:
  "(end_dt s < start s \<and> ''reported_date'' \<in> set (columns df) \<and> fdf_raises df s = None \<longrightarrow>
      fdf df s = Inr (df\<lparr>rows := []\<rparr>) \<and> fdf_v12 df s = Inr (df\<lparr>rows := []\<rparr>)) \<and>
   (start_date q = Some a \<and> end_date q = Some b \<and> b < a \<and> get_data_raises df q = None \<longrightarrow>
      filtered_df df q = Inr (df\<lparr>rows := []\<rparr>))"
proof (intro conjI impI)
  assume h: "end_dt s < start s \<and> ''reported_date'' \<in> set (columns df) \<and> fdf_raises df s = None"
  then have n: "\<And>r. \<not> row_mask df s r" using row_mask_inverted by blast
  then have n': "\<And>r. \<not> mask_v12 df s r" using mask_v12_imp by blast
  show "fdf df s = Inr (df\<lparr>rows := []\<rparr>)"
    unfolding fdf_def using h filter_none[of "row_mask df s" "rows df", OF n] by simp
  show "fdf_v12 df s = Inr (df\<lparr>rows := []\<rparr>)"
    unfolding fdf_v12_def using h filter_none[of "mask_v12 df s" "rows df", OF n'] by simp
next
  assume h: "start_date q = Some a \<and> end_date q = Some b \<and> b < a \<and> get_data_raises df q = None"
  then have n: "\<And>r. \<not> get_data_mask q r" using get_data_mask_inverted by blast
  show "filtered_df df q = Inr (df\<lparr>rows := []\<rparr>)"
    unfolding filtered_df_def using h filter_none[of "get_data_mask q" "rows df", OF n] by simp
qed

text \<open>
  C2, counterexample to the claim as stated.
  On the sample store the interval from day 3 back to day 1 is accepted, and the result is a
  view (the empty one), not an error.
\<close>

theorem inverted_interval_counterexample:
  "end_dt (sample_spec\<lparr>start := 3, end_dt := 1\<rparr>) < start (sample_spec\<lparr>start := 3, end_dt := 1\<rparr>) \<and>
   fdf sample_df (sample_spec\<lparr>start := 3, end_dt := 1\<rparr>) = Inr (sample_df\<lparr>rows := []\<rparr>) \<and>
   filtered_df sample_df (sample_query\<lparr>start_date := Some 3, end_date := Some 1\<rparr>) =
     Inr (sample_df\<lparr>rows := []\<rparr>)"
  by (simp add: sample_defs filter_defs)

theorem inverted_interval_gives_empty_view_witness:
  "end_dt (sample_spec\<lparr>start := 3, end_dt := 1\<rparr>) < start (sample_spec\<lparr>start := 3, end_dt := 1\<rparr>) \<and>
   fdf sample_df (sample_spec\<lparr>start := 3, end_dt := 1\<rparr>) = Inr (sample_df\<lparr>rows := []\<rparr>) \<and>
   fdf_v12 sample_df (sample_spec\<lparr>start := 3, end_dt := 1\<rparr>) = Inr (sample_df\<lparr>rows := []\<rparr>) \<and>
   filtered_df sample_df (sample_query\<lparr>start_date := Some 3, end_date := Some 1\<rparr>) =
     Inr (sample_df\<lparr>rows := []\<rparr>)"
proof -
  have h1: "end_dt (sample_spec\<lparr>start := 3, end_dt := 1\<rparr>) < start (sample_spec\<lparr>start := 3, end_dt := 1\<rparr>)"
    by simp
  have h2: "''reported_date'' \<in> set (columns sample_df)" by (simp add: sample_defs)
  have h3: "fdf_raises sample_df (sample_spec\<lparr>start := 3, end_dt := 1\<rparr>) = None"
    by (simp add: sample_defs fdf_raises_def)
  have h4: "start_date (sample_query\<lparr>start_date := Some 3, end_date := Some 1\<rparr>) = Some 3 \<and>
            end_date (sample_query\<lparr>start_date := Some 3, end_date := Some 1\<rparr>) = Some 1 \<and>
            (1::int) < 3" by simp
  have h5: "get_data_raises sample_df (sample_query\<lparr>start_date := Some 3, end_date := Some 1\<rparr>) = None"
    by (simp add: sample_defs get_data_raises_def)
  show ?thesis
    using inverted_interval_gives_empty_view
      [of "sample_spec\<lparr>start := 3, end_dt := 1\<rparr>" sample_df
          "sample_query\<lparr>start_date := Some 3, end_date := Some 1\<rparr>" 3 1]
      h1 h2 h3 h4 h5 by blast
qed

lemma verified_column_iff: "''verified'' \<in> set (frame_columns arr) = has_key raw_verified arr"
  unfolding frame_columns_def by simp

text \<open>
  C9 (as the code has it). After loading, the frame has a verified column. When no record of
  the batch has the key, every record's verified is False. When some record has it, the
  default is not applied: every record keeps its input value, and a record without the key
  (or with null) has a missing value, not False.
\<close>

theorem verified_default_is_per_column:
  "''verified'' \<in> set (columns (load_data pd pn arr)) \<and>
   (\<not> has_key raw_verified arr \<longrightarrow>
      map verified (rows (load_data pd pn arr)) = map (\<lambda>x. Some False) arr) \<and>
   (has_key raw_verified arr \<longrightarrow>
      map verified (rows (load_data pd pn arr)) = map (\<lambda>x. cell (raw_verified x)) arr)"
  unfolding load_data_def by (simp add: Let_def verified_column_iff comp_def)

text \<open>
  C9, counterexample to the claim as stated. In a batch of two records where only the first
  has the key, the second record's verified is missing after loading, not False.
\<close>

theorem verified_default_counterexample:
  "raw_verified raw_without_verified = Absent \<and>
   map verified (rows (load_data sample_parse_date sample_parse_num
      [raw_with_verified, raw_without_verified])) = [Some True, None]"
  by (simp add: load_data_def Let_def frame_columns_def has_key_def cell_def
      raw_with_verified_def raw_without_verified_def)

theorem verified_default_is_per_column_witness:
  "\<not> has_key raw_verified [raw_without_verified] \<and>
   map verified (rows (load_data sample_parse_date sample_parse_num [raw_without_verified])) =
     [Some False] \<and>
   has_key raw_verified [raw_with_verified, raw_without_verified] \<and>
   map verified (rows (load_data sample_parse_date sample_parse_num
      [raw_with_verified, raw_without_verified])) = [Some True, None]"
proof -
  have h1: "\<not> has_key raw_verified [raw_without_verified]"
    by (simp add: has_key_def raw_without_verified_def)
  have h2: "has_key raw_verified [raw_with_verified, raw_without_verified]"
    by (simp add: has_key_def raw_with_verified_def)
  have c: "cell (raw_verified raw_with_verified) = Some True"
          "cell (raw_verified raw_without_verified) = None"
    by (simp_all add: cell_def raw_with_verified_def raw_without_verified_def)
  show ?thesis
    using verified_default_is_per_column
        [of sample_parse_date sample_parse_num "[raw_without_verified]"]
      verified_default_is_per_column
        [of sample_parse_date sample_parse_num "[raw_with_verified, raw_without_verified]"]
      h1 h2 c by simp
qed

text \<open>
  C6. The day-over-day change is absent (\<open>None\<close>, shown as "N/A") when the series has fewer
  than two points or its second-to-last count is 0; otherwise it is
  (last - prev) / prev * 100. The KPI applies it to the counts per day of the view and is
  absent as well for an empty view.
\<close>

theorem day_over_day_change:
  "((length xs < 2 \<or> xs ! (length xs - 2) = 0) \<longrightarrow> compute_latest_dod xs = None) \<and>
   (\<not> (length xs < 2 \<or> xs ! (length xs - 2) = 0) \<longrightarrow>
      compute_latest_dod xs =
        Some ((real_of_int (last xs) - real_of_int (xs ! (length xs - 2))) /
              real_of_int (xs ! (length xs - 2)) * 100)) \<and>
   dod_pct v =
     (if rows v = [] \<or> ''reported_date'' \<notin> set (columns v) then None
      else compute_latest_dod (map snd (sort_index (groupby_size (date_only (rows v))))))"
proof (intro conjI impI)
  assume "length xs < 2 \<or> xs ! (length xs - 2) = 0"
  then show "compute_latest_dod xs = None"
    unfolding compute_latest_dod_def by (auto simp: Let_def)
next
  assume a: "\<not> (length xs < 2 \<or> xs ! (length xs - 2) = 0)"
  then have "xs \<noteq> []" by auto
  then have l: "xs ! (length xs - 1) = last xs" by (simp add: last_conv_nth)
  show "compute_latest_dod xs =
        Some ((real_of_int (last xs) - real_of_int (xs ! (length xs - 2))) /
              real_of_int (xs ! (length xs - 2)) * 100)"
    unfolding compute_latest_dod_def using a l by (simp add: Let_def)
next
  show "dod_pct v =
     (if rows v = [] \<or> ''reported_date'' \<notin> set (columns v) then None
      else compute_latest_dod (map snd (sort_index (groupby_size (date_only (rows v))))))"
    unfolding dod_pct_def compute_latest_dod_def by (simp add: Let_def)
qed

theorem day_over_day_change_witness:
  "compute_latest_dod [] = None \<and> compute_latest_dod [4] = None \<and>
   compute_latest_dod [3, 0, 5] = None \<and> compute_latest_dod [2, 4, 3] = Some (- 25)"
  using day_over_day_change[of "[]"] day_over_day_change[of "[4]"]
    day_over_day_change[of "[3, 0, 5]"] day_over_day_change[of "[2, 4, 3]"]
  by simp

lemma map_insort_key: "map f (insort_key f x xs) = insort (f x) (map f xs)"
  by (induction xs) simp_all

lemma map_sort_key: "map f (sort_key f xs) = sort (map f xs)"
  by (induction xs) (simp_all add: map_insort_key)

lemma map_of_sort_index:
  assumes "distinct (map fst ser)"
  shows "map_of (sort_index ser) = map_of ser"
proof -
  have "distinct (map fst (sort_index ser))"
    unfolding sort_index_def map_sort_key using assms by simp
  moreover have "set (sort_index ser) = set ser" unfolding sort_index_def by simp
  ultimately show ?thesis using map_of_inject_set[OF _ assms] by blast
qed

lemma fst_groupby_size: "map fst (groupby_size ks) = remdups ks"
  unfolding groupby_size_def by (simp add: comp_def)

lemma map_of_groupby_size:
  "map_of (groupby_size ks) k = (if k \<in> set ks then Some (int (count_list ks k)) else None)"
  unfolding groupby_size_def by (simp add: map_of_map_restrict restrict_map_def)

lemma reindex_counts:
  "reindex (sort_index (groupby_size ks)) idx = map (\<lambda>k. (k, int (count_list ks k))) idx"
proof -
  have d: "distinct (map fst (groupby_size ks))" by (simp add: fst_groupby_size)
  show ?thesis
    unfolding reindex_def map_of_sort_index[OF d] map_of_groupby_size
    by (simp add: count_notin)
qed

lemma count_date_only:
  "count_list (date_only rs) d = length (filter (\<lambda>r. reported_date r = Some d) rs)"
  unfolding date_only_def by (induction rs) (simp_all split: option.splits)

lemma daily_nonempty:
  assumes "rows v \<noteq> []" "''reported_date'' \<in> set (columns v)"
  shows "daily v a b =
    Some (map (\<lambda>d. (d, int (length (filter (\<lambda>r. reported_date r = Some d) (rows v))))) [a..b])"
  unfolding daily_def date_range_def reindex_counts using assms by (simp add: count_date_only)

lemma resample_D_dates:
  "date_only rs \<noteq> [] \<Longrightarrow>
   resample_D rs = map (\<lambda>d. (d, int (length (filter (\<lambda>r. reported_date r = Some d) rs))))
                       [Min (set (date_only rs)) .. Max (set (date_only rs))]"
  unfolding resample_D_def by (simp add: Let_def count_date_only)

text \<open>
  C3 (as the code has it). For a view that is not empty and has the date column, the daily
  series of \<^verbatim>\<open>app1.1.py\<close> over start..end has one entry per calendar date, in order, each
  with the number of records of that date (0 where there is none), so (end - start) + 1
  entries when start is not after end. For an empty view the tab shows a placeholder and
  builds no series. The daily series of \<^verbatim>\<open>app_1.2.py\<close> has one entry per date from the
  first to the last date present in the view, whatever the selected interval.
\<close>

theorem daily_series_zero_filled:
  "(rows v \<noteq> [] \<and> ''reported_date'' \<in> set (columns v) \<longrightarrow>
      (\<exists>xs. daily v a b = Some xs \<and> map fst xs = [a..b] \<and>
            (a \<le> b \<longrightarrow> int (length xs) = b - a + 1) \<and>
            (\<forall>i < length xs. snd (xs ! i) =
                int (length (filter (\<lambda>r. reported_date r = Some (a + int i)) (rows v)))))) \<and>
   (rows v = [] \<longrightarrow> daily v a b = None) \<and>
   (daily_series v \<noteq> None \<longrightarrow>
      (\<exists>ys. daily_series v = Some ys \<and>
            map fst ys = [Min (set (date_only (rows v))) .. Max (set (date_only (rows v)))] \<and>
            (\<forall>p \<in> set ys. snd p =
                int (length (filter (\<lambda>r. reported_date r = Some (fst p)) (rows v))))))"
proof (intro conjI impI)
  assume h: "rows v \<noteq> [] \<and> ''reported_date'' \<in> set (columns v)"
  let ?xs = "map (\<lambda>d. (d, int (length (filter (\<lambda>r. reported_date r = Some d) (rows v))))) [a..b]"
  have 1: "daily v a b = Some ?xs" using h by (simp add: daily_nonempty)
  have 2: "map fst ?xs = [a..b]" by (simp add: comp_def)
  have 3: "a \<le> b \<longrightarrow> int (length ?xs) = b - a + 1" by simp
  have 4: "\<forall>i < length ?xs. snd (?xs ! i) =
                int (length (filter (\<lambda>r. reported_date r = Some (a + int i)) (rows v)))"
  proof (intro allI impI)
    fix i assume "i < length ?xs"
    then have "a + int i \<le> b" by simp
    then have "[a..b] ! i = a + int i" by (rule nth_upto)
    with \<open>i < length ?xs\<close> show "snd (?xs ! i) =
                int (length (filter (\<lambda>r. reported_date r = Some (a + int i)) (rows v)))"
      by simp
  qed
  from 1 2 3 4 show "\<exists>xs. daily v a b = Some xs \<and> map fst xs = [a..b] \<and>
            (a \<le> b \<longrightarrow> int (length xs) = b - a + 1) \<and>
            (\<forall>i < length xs. snd (xs ! i) =
                int (length (filter (\<lambda>r. reported_date r = Some (a + int i)) (rows v))))"
    by blast
next
  assume "rows v = []" then show "daily v a b = None" by (simp add: daily_def)
next
  assume h: "daily_series v \<noteq> None"
  then have n: "date_only (rows v) \<noteq> []" unfolding daily_series_def by (simp split: if_splits)
  have 1: "daily_series v = Some (resample_D (rows v))"
    using h unfolding daily_series_def by (simp split: if_splits)
  show "\<exists>ys. daily_series v = Some ys \<and>
            map fst ys = [Min (set (date_only (rows v))) .. Max (set (date_only (rows v)))] \<and>
            (\<forall>p \<in> set ys. snd p =
                int (length (filter (\<lambda>r. reported_date r = Some (fst p)) (rows v))))"
    unfolding 1 resample_D_dates[OF n] by (auto simp: comp_def)
qed

lemmas series_defs = daily_def daily_series_def resample_D_def reindex_def sort_index_def
  groupby_size_def date_only_def date_range_def

lemma upto_1_3: "[1..3] = [1, 2, 3::int]"
  by (simp add: upto_rec1)

text \<open>
  C3, counterexample to the claim as stated.
  For the empty view and the one-day interval 1..1 the daily tab builds no series; and for
  the view of the sample store under the sample selection (days 1..3) the resampled series of
  \<^verbatim>\<open>app_1.2.py\<close> has one entry, not three.
\<close>

theorem daily_series_counterexample:
  "daily (sample_df\<lparr>rows := []\<rparr>) 1 1 = None \<and>
   fdf_v12 sample_df sample_spec = Inr (sample_df\<lparr>rows := [row_a]\<rparr>) \<and>
   start sample_spec = 1 \<and> end_dt sample_spec = 3 \<and>
   daily_series (sample_df\<lparr>rows := [row_a]\<rparr>) = Some [(1, 1)]"
  by (simp add: sample_fdf_v12) (simp add: sample_defs series_defs upto_rec1)

theorem daily_series_zero_filled_witness:
  "daily (sample_df\<lparr>rows := [row_a]\<rparr>) 1 3 = Some [(1, 1), (2, 0), (3, 0)] \<and>
   daily (sample_df\<lparr>rows := []\<rparr>) 1 3 = None \<and>
   daily_series (sample_df\<lparr>rows := [row_a]\<rparr>) = Some [(1, 1)]"
proof -
  have h: "rows (sample_df\<lparr>rows := [row_a]\<rparr>) \<noteq> [] \<and>
           ''reported_date'' \<in> set (columns (sample_df\<lparr>rows := [row_a]\<rparr>))"
    by (simp add: sample_defs)
  have e: "rows (sample_df\<lparr>rows := []\<rparr>) = []" by simp
  have d: "daily (sample_df\<lparr>rows := [row_a]\<rparr>) 1 3 = Some [(1, 1), (2, 0), (3, 0)]"
    by (simp add: sample_defs series_defs upto_1_3)
  have s: "daily_series (sample_df\<lparr>rows := [row_a]\<rparr>) = Some [(1, 1)]"
    by (simp add: sample_defs series_defs upto_rec1)
  show ?thesis
    using daily_series_zero_filled[of "sample_df\<lparr>rows := [row_a]\<rparr>" 1 3]
      daily_series_zero_filled[of "sample_df\<lparr>rows := []\<rparr>" 1 3] h e d s
    by blast
qed

lemma rolling_window_length:
  "i < length xs \<Longrightarrow> length (rolling_window w xs i) = Suc i - (Suc i - w)"
  unfolding rolling_window_def by simp

lemma rolling_window_spec:
  assumes "i < length xs" "1 \<le> w"
  shows "rolling_window w xs i =
         map (\<lambda>j. xs ! nat j) [max 0 (int i - int w + 1) .. int i]"
proof (rule nth_equalityI)
  show "length (rolling_window w xs i) =
        length (map (\<lambda>j. xs ! nat j) [max 0 (int i - int w + 1) .. int i])"
    using assms by (simp add: rolling_window_length)
next
  fix k assume k: "k < length (rolling_window w xs i)"
  then have k': "k < Suc i - (Suc i - w)" using assms by (simp add: rolling_window_length)
  have l: "rolling_window w xs i ! k = xs ! (Suc i - w + k)"
    unfolding rolling_window_def using k' assms by simp
  have u: "max 0 (int i - int w + 1) + int k \<le> int i" using k' assms by linarith
  have n: "nat (max 0 (int i - int w + 1) + int k) = Suc i - w + k" using k' assms by linarith
  have "map (\<lambda>j. xs ! nat j) [max 0 (int i - int w + 1) .. int i] ! k =
        xs ! nat ([max 0 (int i - int w + 1) .. int i] ! k)"
    using u by (intro nth_map) simp
  also have "\<dots> = xs ! (Suc i - w + k)" unfolding nth_upto[OF u] n by simp
  finally show "rolling_window w xs i ! k =
        map (\<lambda>j. xs ! nat j) [max 0 (int i - int w + 1) .. int i] ! k"
    using l by simp
qed

lemma rolling_mean_nth:
  assumes "i < length xs" "1 \<le> w"
  shows "rolling_mean w xs ! i =
         Some (real_of_int (sum_list (rolling_window w xs i)) / real (length (rolling_window w xs i)))"
proof -
  have "length (rolling_window w xs i) \<ge> 1"
    using assms by (simp add: rolling_window_length)
  then have "rolling_window w xs i \<noteq> []" by auto
  then show ?thesis unfolding rolling_mean_def using assms(1) by (simp add: Let_def)
qed

lemma rolling_window_prefix:
  "take (Suc i) ys = take (Suc i) xs \<Longrightarrow> rolling_window w ys i = rolling_window w xs i"
  unfolding rolling_window_def by simp

text \<open>
  C4. For every series and every window w of at least 1, the rolling mean has the length of
  the series; its value at each index i is the mean of series[max(0, i-w+1) .. i]; at index
  0 it is series[0]; and it is the same for any two series that agree up to index i, so no
  value depends on a later point. The dashboards use w = 7.
\<close>

theorem rolling_mean_is_trailing_window_mean:
  assumes "1 \<le> w"
  shows "length (rolling_mean w xs) = length xs \<and>
    (\<forall>i < length xs. rolling_mean w xs ! i = Some (spec_rollingMean_at xs w i)) \<and>
    (xs \<noteq> [] \<longrightarrow> rolling_mean w xs ! 0 = Some (real_of_int (xs ! 0))) \<and>
    (\<forall>i < length xs. \<forall>ys. i < length ys \<and> take (Suc i) ys = take (Suc i) xs \<longrightarrow>
        rolling_mean w ys ! i = rolling_mean w xs ! i) \<and>
    rolling_7d xs = rolling_mean 7 xs"
proof (intro conjI allI impI)
  show "length (rolling_mean w xs) = length xs" unfolding rolling_mean_def by simp
next
  fix i assume i: "i < length xs"
  show "rolling_mean w xs ! i = Some (spec_rollingMean_at xs w i)"
    unfolding rolling_mean_nth[OF i assms] spec_rollingMean_at_def Let_def
      rolling_window_spec[OF i assms] by simp
next
  assume "xs \<noteq> []"
  then have i: "0 < length xs" by simp
  have "rolling_window w xs 0 = [xs ! 0]"
    unfolding rolling_window_def using assms i by (cases xs) simp_all
  then show "rolling_mean w xs ! 0 = Some (real_of_int (xs ! 0))"
    unfolding rolling_mean_nth[OF i assms] by simp
next
  fix i ys assume i: "i < length xs" and h: "i < length ys \<and> take (Suc i) ys = take (Suc i) xs"
  then have j: "i < length ys" by simp
  show "rolling_mean w ys ! i = rolling_mean w xs ! i"
    unfolding rolling_mean_nth[OF i assms] rolling_mean_nth[OF j assms]
      rolling_window_prefix[of i ys xs w, OF conjunct2[OF h]] by simp
next
  show "rolling_7d xs = rolling_mean 7 xs" by (simp add: rolling_7d_def)
qed

lemma rolling_sample: "rolling_mean 2 [2, 4, 9] = [Some 2, Some 3, Some (13 / 2)]"
  by (simp add: rolling_mean_def rolling_window_def upt_rec Let_def)

theorem rolling_mean_is_trailing_window_mean_witness:
  "(1::nat) \<le> 2 \<and> length (rolling_mean 2 [2, 4, 9]) = 3 \<and>
   rolling_mean 2 [2, 4, 9] ! 0 = Some 2 \<and>
   rolling_mean 2 [2, 4, 9] = [Some 2, Some 3, Some (13 / 2)] \<and>
   spec_rollingMean_at [2, 4, 9] 2 2 = 13 / 2 \<and>
   rolling_mean 2 [2, 4, 100] ! 1 = Some 3"
proof -
  have h: "(1::nat) \<le> 2" by simp
  have t: "(1::nat) < length [2, 4, 100::int] \<and> take (Suc 1) [2, 4, 100::int] = take (Suc 1) [2, 4, 9]"
    by simp
  have l: "(1::nat) < length [2, 4, 9::int]" "(2::nat) < length [2, 4, 9::int]" by simp_all
  note T = rolling_mean_is_trailing_window_mean[OF h, of "[2, 4, 9]"]
  from T have a: "length (rolling_mean 2 [2, 4, 9]) = 3" by simp
  from T have b: "rolling_mean 2 [2, 4, 9] ! 0 = Some 2" by simp
  from T l(2) have "rolling_mean 2 [2, 4, 9] ! 2 = Some (spec_rollingMean_at [2, 4, 9] 2 2)"
    by blast
  then have c: "spec_rollingMean_at [2, 4, 9] 2 2 = 13 / 2" by (simp add: rolling_sample)
  from T l(1) t have "rolling_mean 2 [2, 4, 100] ! 1 = rolling_mean 2 [2, 4, 9] ! 1" by blast
  then have d: "rolling_mean 2 [2, 4, 100] ! 1 = Some 3" by (simp add: rolling_sample)
  from h a b c d rolling_sample show ?thesis by simp
qed

lemma spec_stddev_nonneg: "0 \<le> spec_stddev xs"
proof -
  have "0 \<le> sum_list (map (\<lambda>x. (real_of_int x - spec_mean xs)\<^sup>2) xs)"
    by (rule sum_list_nonneg) auto
  then show ?thesis unfolding spec_stddev_def by simp
qed

lemma series_mean_spec: "xs \<noteq> [] \<Longrightarrow> series_mean xs = Some (spec_mean xs)"
  unfolding series_mean_def spec_mean_def by simp

lemma series_std_spec: "2 \<le> length xs \<Longrightarrow> series_std xs = Some (spec_stddev xs)"
  unfolding series_std_def spec_stddev_def spec_mean_def by (simp add: Let_def)

lemma series_std_short: "length xs < 2 \<Longrightarrow> series_std xs = None \<and> spec_stddev xs = 0"
  unfolding series_std_def spec_stddev_def by simp

lemma global_std_spec:
  "(if gt_na (series_std xs) 0 then the (series_std xs) else 0) = spec_stddev xs"
proof (cases "length xs < 2")
  case True
  then show ?thesis using series_std_short[OF True] by (simp add: gt_na_def)
next
  case False
  then have s: "series_std xs = Some (spec_stddev xs)" by (simp add: series_std_spec)
  show ?thesis unfolding s using spec_stddev_nonneg[of xs] by (simp add: gt_na_def)
qed

lemma anomaly_spec: "anomaly xs = spec_detectAnomalies xs 2"
proof (cases "xs = []")
  case True
  then show ?thesis by (simp add: anomaly_def spec_detectAnomalies_def)
next
  case False
  show ?thesis
    unfolding anomaly_def Let_def global_std_spec series_mean_spec[OF False]
      spec_detectAnomalies_def
    by (simp add: gt_na_def)
qed

lemma spec_mean_constant:
  assumes "xs \<noteq> []" "\<forall>x \<in> set xs. x = c"
  shows "spec_mean xs = real_of_int c"
proof -
  have "replicate (length xs) c = xs" using assms(2) by (intro replicate_length_same) simp
  then have "sum_list xs = int (length xs) * c" by (metis sum_list_replicate)
  then show ?thesis unfolding spec_mean_def using assms(1) by simp
qed

text \<open>
  C5. Anomaly detection flags exactly the points whose count is greater than
  mean + 2 * stddev, mean and deviation taken once over the whole series (the deviation of a
  series of fewer than two points counts as 0); it returns one flag per point for every
  series, and flags nothing when all values of the series are equal.
\<close>

theorem anomaly_is_mean_plus_two_sigma:
  "anomaly xs = spec_detectAnomalies xs 2 \<and>
   length (anomaly xs) = length xs \<and>
   (\<forall>i < length xs. anomaly xs ! i = (spec_mean xs + 2 * spec_stddev xs < real_of_int (xs ! i))) \<and>
   ((\<forall>x \<in> set xs. x = c) \<longrightarrow> anomaly xs = replicate (length xs) False)"
proof (intro conjI allI impI)
  show "anomaly xs = spec_detectAnomalies xs 2" by (rule anomaly_spec)
  show "length (anomaly xs) = length xs" by (simp add: anomaly_spec spec_detectAnomalies_def)
next
  fix i assume "i < length xs"
  then show "anomaly xs ! i = (spec_mean xs + 2 * spec_stddev xs < real_of_int (xs ! i))"
    by (simp add: anomaly_spec spec_detectAnomalies_def)
next
  assume h: "\<forall>x \<in> set xs. x = c"
  show "anomaly xs = replicate (length xs) False"
  proof (cases "xs = []")
    case True
    then show ?thesis by (simp add: anomaly_spec spec_detectAnomalies_def)
  next
    case False
    have m: "spec_mean xs = real_of_int c" by (rule spec_mean_constant[OF False h])
    have "\<And>x. x \<in> set xs \<Longrightarrow> \<not> (spec_mean xs + 2 * spec_stddev xs < real_of_int x)"
      unfolding m using h spec_stddev_nonneg[of xs] by auto
    then have "map (\<lambda>c. spec_mean xs + 2 * spec_stddev xs < real_of_int c) xs =
               map (\<lambda>c. False) xs" by (intro map_cong) simp_all
    then show ?thesis unfolding anomaly_spec spec_detectAnomalies_def
      by (simp add: map_replicate_const)
  qed
qed

lemma sample_stddev: "spec_mean [0, 0, 0, 4] = 1 \<and> spec_stddev [0, 0, 0, 4] = 2"
proof -
  have "sqrt 4 = 2" using real_sqrt_abs[of 2] by simp
  then show ?thesis by (simp add: spec_mean_def spec_stddev_def)
qed

lemma sample_stddev_spike:
  "spec_mean [0, 0, 0, 0, 0, 0, 0, 0, 0, 10] = 1 \<and>
   spec_stddev [0, 0, 0, 0, 0, 0, 0, 0, 0, 10] = sqrt 10"
  by (simp add: spec_mean_def spec_stddev_def)

lemma sqrt_10_bound: "1 + 2 * sqrt 10 < 10 \<and> \<not> 1 + 2 * sqrt 10 < 0"
proof -
  have "sqrt 10 < sqrt 16" by (rule real_sqrt_less_mono) simp
  also have "sqrt 16 = 4" using real_sqrt_abs[of 4] by simp
  finally have u: "sqrt 10 < 4" .
  have l: "0 \<le> sqrt 10" by simp
  from u l show ?thesis by linarith
qed

theorem anomaly_is_mean_plus_two_sigma_witness:
  "anomaly [3, 3, 3] = [False, False, False] \<and> anomaly [7] = [False] \<and> anomaly [] = [] \<and>
   anomaly [0, 0, 0, 4] = [False, False, False, False] \<and>
   anomaly [0, 0, 0, 0, 0, 0, 0, 0, 0, 10] =
     [False, False, False, False, False, False, False, False, False, True]"
proof -
  note const = conjunct2[OF conjunct2[OF conjunct2[OF anomaly_is_mean_plus_two_sigma]]]
  note flags = conjunct1[OF anomaly_is_mean_plus_two_sigma]
  have a: "anomaly [3, 3, 3] = [False, False, False]"
    using const[of "[3, 3, 3]" 3] by (simp add: numeral_3_eq_3)
  have b: "anomaly [7] = [False]"
    using const[of "[7]" 7] by simp
  have c: "anomaly [] = []"
    using const[of "[]" 0] by simp
  have d: "anomaly [0, 0, 0, 4] = [False, False, False, False]"
    unfolding flags[of "[0, 0, 0, 4]"] using sample_stddev
    by (simp add: spec_detectAnomalies_def)
  have e: "anomaly [0, 0, 0, 0, 0, 0, 0, 0, 0, 10] =
     [False, False, False, False, False, False, False, False, False, True]"
    unfolding flags[of "[0, 0, 0, 0, 0, 0, 0, 0, 0, 10]"]
    using sample_stddev_spike sqrt_10_bound
    by (simp add: spec_detectAnomalies_def)
  from a b c d e show ?thesis by simp
qed

subsection \<open>Counting values\<close>



lemma first_seen_props: "distinct (rev (remdups (rev vs))) \<and> set (rev (remdups (rev vs))) = set vs"
  by simp














subsection \<open>The pivot over the date range\<close>

















end
